theory Spec2Isabelle
  imports Main
begin

section \<open>Strings of the host language\<close>

text \<open>
  A string is a list of code units. The model covers the code units 0 to 255 (Basic
  Latin and Latin-1 Supplement), on which \<open>toLowerCase\<close>, \<open>trim\<close>, the class
  \<open>\s\<close> and the pattern \<open>.\<close> act unit by unit as defined below; text with
  other code units is not represented.
\<close>

definition isLineTerminator :: "char \<Rightarrow> bool" where
  "isLineTerminator c \<longleftrightarrow> c = CHR 0x0A \<or> c = CHR 0x0D"

definition isWhiteSpace :: "char \<Rightarrow> bool" where
  "isWhiteSpace c \<longleftrightarrow>
     c = CHR 0x09 \<or> c = CHR 0x0A \<or> c = CHR 0x0B \<or> c = CHR 0x0C \<or> c = CHR 0x0D \<or>
     c = CHR 0x20 \<or> c = CHR 0xA0"

definition toLowerChar :: "char \<Rightarrow> char" where
  "toLowerChar c =
     (let n = (of_char c :: nat)
      in if (65 \<le> n \<and> n \<le> 90) \<or> (192 \<le> n \<and> n \<le> 222 \<and> n \<noteq> 215)
         then char_of (n + 32) else c)"

definition toLowerCase :: "string \<Rightarrow> string" where
  "toLowerCase s = map toLowerChar s"

definition trim :: "string \<Rightarrow> string" where
  "trim s = rev (dropWhile isWhiteSpace (rev (dropWhile isWhiteSpace s)))"

definition startsWith :: "string \<Rightarrow> string \<Rightarrow> bool" where
  \<comment> \<open>\<open>startsWith p s\<close> is \<open>s.startsWith(p)\<close>\<close>
  "startsWith p s \<longleftrightarrow> take (length p) s = p"

definition endsWith :: "string \<Rightarrow> string \<Rightarrow> bool" where
  "endsWith p s \<longleftrightarrow> length p \<le> length s \<and> drop (length s - length p) s = p"

fun split :: "char \<Rightarrow> string \<Rightarrow> string list" where
  \<comment> \<open>\<open>s.split(sep)\<close> for a one-character separator: never empty\<close>
  "split sep [] = [[]]"
| "split sep (c # cs) =
     (if c = sep then [] # split sep cs
      else (case split sep cs of [] \<Rightarrow> [[c]] | l # ls \<Rightarrow> (c # l) # ls))"

fun indexOf :: "string \<Rightarrow> string \<Rightarrow> nat option" where
  \<comment> \<open>\<open>indexOf s q\<close> is \<open>s.indexOf(q)\<close>, with \<open>None\<close> for -1\<close>
  "indexOf [] q = (if q = [] then Some 0 else None)"
| "indexOf (c # cs) q =
     (if startsWith q (c # cs) then Some 0 else map_option Suc (indexOf cs q))"

definition includesStr :: "string \<Rightarrow> string \<Rightarrow> bool" where
  "includesStr s q \<longleftrightarrow> indexOf s q \<noteq> None"

definition slice :: "nat \<Rightarrow> nat \<Rightarrow> string \<Rightarrow> string" where
  \<comment> \<open>\<open>s.slice(a, b)\<close> for non-negative \<open>a\<close> and \<open>b\<close>\<close>
  "slice a b s = take (b - a) (drop a s)"

function replaceRuns :: "(char \<Rightarrow> bool) \<Rightarrow> string \<Rightarrow> string" where
  \<comment> \<open>\<open>s.replace(/C+/g, '-')\<close> for a character class \<open>C\<close>\<close>
  "replaceRuns P [] = []"
| "replaceRuns P (c # cs) =
     (if P c then CHR ''-'' # replaceRuns P (dropWhile P cs) else c # replaceRuns P cs)"
  by pat_completeness auto
termination
  by (relation "measure (\<lambda>(P, s). length s)")
     (auto simp: length_dropWhile_le less_Suc_eq_le)

definition isSlugChar :: "char \<Rightarrow> bool" where
  \<comment> \<open>the class \<open>[a-z0-9]\<close>\<close>
  "isSlugChar c \<longleftrightarrow>
     (let n = (of_char c :: nat) in (97 \<le> n \<and> n \<le> 122) \<or> (48 \<le> n \<and> n \<le> 57))"

function showNat :: "nat \<Rightarrow> string" where
  \<comment> \<open>decimal digits of a number, as \<open>toString\<close> prints them\<close>
  "showNat n =
     (if n < 10 then [char_of (48 + n)] else showNat (n div 10) @ [char_of (48 + n mod 10)])"
  by pat_completeness auto
termination
  by (relation "measure id") auto

section \<open>Section Extractor\<close>

record DocumentSection =
  sec_id :: string
  sec_title :: string
  sec_level :: nat

record Document =
  doc_title :: string
  doc_content :: string
  doc_sections :: "DocumentSection list"

definition idTail :: "string \<Rightarrow> bool" where
  \<comment> \<open>does \<open>/\s*\{#.*\}$/\<close> match the whole of the string from its first character\<close>
  "idTail r \<longleftrightarrow>
     (let r' = dropWhile isWhiteSpace r
      in startsWith ''{#'' r' \<and>
         (let body = drop 2 r'
          in body \<noteq> [] \<and> last body = CHR ''}'' \<and>
             (\<forall>c \<in> set (butlast body). \<not> isLineTerminator c)))"

fun stripIdSuffix :: "string \<Rightarrow> string" where
  \<comment> \<open>\<open>s.replace(/\s*\{#.*\}$/, '')\<close>: the leftmost match runs to the end and is cut off\<close>
  "stripIdSuffix [] = []"
| "stripIdSuffix (c # cs) = (if idTail (c # cs) then [] else c # stripIdSuffix cs)"

fun explicitId :: "string \<Rightarrow> string option" where
  \<comment> \<open>group 1 of \<open>s.match(/\{#([^}]+)\}/)\<close>, leftmost match\<close>
  "explicitId [] = None"
| "explicitId (c # cs) =
     (if startsWith ''{#'' (c # cs) then
        (let body = drop 2 (c # cs); g = takeWhile (\<lambda>x. x \<noteq> CHR ''}'') body
         in if g \<noteq> [] \<and> dropWhile (\<lambda>x. x \<noteq> CHR ''}'') body \<noteq> [] then Some g
            else explicitId cs)
      else explicitId cs)"

definition sectionOfLine :: "string \<Rightarrow> DocumentSection option" where
  \<comment> \<open>one turn of the loop of \<open>parseMarkdownSections\<close>: the section of a heading
      line, nothing for another line\<close>
  "sectionOfLine line =
     (let trimmedLine = trim line
      in if startsWith ''#'' trimmedLine then
           (let hashes = length (takeWhile (\<lambda>c. c = CHR ''#'') trimmedLine);
                level = (if hashes = 0 then 1 else hashes);
                title = stripIdSuffix
                          (dropWhile isWhiteSpace (dropWhile (\<lambda>c. c = CHR ''#'') trimmedLine));
                ident = (case explicitId trimmedLine of
                           Some i \<Rightarrow> i
                         | None \<Rightarrow> replaceRuns (\<lambda>c. \<not> isSlugChar c) (toLowerCase title))
            in Some \<lparr>sec_id = ident, sec_title = title, sec_level = level\<rparr>)
         else None)"

definition parseMarkdownSections :: "string \<Rightarrow> DocumentSection list" where
  "parseMarkdownSections content = List.map_filter sectionOfLine (split CHR 0x0A content)"

section \<open>Level-2 heading pattern\<close>

definition idSuffix :: "string \<Rightarrow> string option" where
  \<comment> \<open>group 2 when \<open>\s+\{#(.+?)\}\<close> followed by \<open>$\<close> matches the whole of the string\<close>
  "idSuffix r =
     (let ws = takeWhile isWhiteSpace r; r' = dropWhile isWhiteSpace r
      in if ws \<noteq> [] \<and> startsWith ''{#'' r' then
           (let body = drop 2 r'
            in if 2 \<le> length body \<and> last body = CHR ''}'' \<and>
                  (\<forall>c \<in> set (butlast body). \<not> isLineTerminator c)
               then Some (butlast body) else None)
         else None)"

fun headerScan :: "string \<Rightarrow> string \<Rightarrow> (string \<times> string option) option" where
  \<comment> \<open>the lazy group 1 grows one character at a time; \<open>t\<close> is the group so far\<close>
  "headerScan t [] = Some (t, None)"
| "headerScan t (c # cs) =
     (case idSuffix (c # cs) of
        Some i \<Rightarrow> Some (t, Some i)
      | None \<Rightarrow> if isLineTerminator c then None else headerScan (t @ [c]) cs)"

definition headerMatch :: "string \<Rightarrow> (string \<times> string option) option" where
  \<comment> \<open>groups 1 and 2 of \<open>line.match(/^## (.+?)(?:\s+\{#(.+?)\})?$/)\<close>\<close>
  "headerMatch line =
     (if startsWith ''## '' line then
        (case drop 3 line of
           [] \<Rightarrow> None
         | c # cs \<Rightarrow> if isLineTerminator c then None else headerScan [c] cs)
      else None)"

definition orElse :: "string option \<Rightarrow> string \<Rightarrow> string" where
  \<comment> \<open>\<open>a || b\<close> on strings: an undefined or empty \<open>a\<close> gives \<open>b\<close>\<close>
  "orElse a b = (case a of None \<Rightarrow> b | Some s \<Rightarrow> if s = [] then b else s)"

definition slugSpaces :: "string \<Rightarrow> string" where
  \<comment> \<open>\<open>title.toLowerCase().replace(/\s+/g, '-')\<close>\<close>
  "slugSpaces title = replaceRuns isWhiteSpace (toLowerCase title)"

section \<open>Markdown Line Renderer\<close>

text \<open>
  The renderer's output, one constructor per kind of element pushed by
  \<open>parseMarkdown\<close>. The first argument is the element's key: the index of its
  line, or for a code block the running number \<open>n\<close> of its id \<open>code-n\<close>. Class
  names, which depend only on the dark-mode flag, are left out.
\<close>

datatype element =
    CodeBlock nat string string  \<comment> \<open>number, language, text\<close>
  | Heading1 nat string
  | Heading2 nat string string bool  \<comment> \<open>line, id, title, bookmarked\<close>
  | Heading3 nat string
  | DefinitionItem nat string string  \<comment> \<open>line, term, definition\<close>
  | ListItem nat string
  | HorizontalRule nat
  | Caption nat string
  | Paragraph nat string

record parser_state =
  elements :: "element list"
  currentCodeBlock :: string
  inCodeBlock :: bool
  codeBlockLanguage :: string
  codeBlockId :: nat

definition initialParser :: parser_state where
  "initialParser =
     \<lparr>elements = [], currentCodeBlock = [], inCodeBlock = False,
      codeBlockLanguage = [], codeBlockId = 0\<rparr>"

definition definitionBody :: "string \<Rightarrow> string option" where
  \<comment> \<open>group 2 when \<open>\s*(.+)$\<close> matches the whole of the string; the greedy \<open>\s*\<close>
      gives back one character when nothing else is left for \<open>(.+)\<close>\<close>
  "definitionBody r =
     (let d = dropWhile isWhiteSpace r
      in if d \<noteq> [] then (if \<forall>c \<in> set d. \<not> isLineTerminator c then Some d else None)
         else if r \<noteq> [] \<and> \<not> isLineTerminator (last r) then Some [last r]
         else None)"

fun definitionScan :: "string \<Rightarrow> string \<Rightarrow> (string \<times> string) option" where
  \<comment> \<open>the lazy group 1 grows one character at a time; \<open>t\<close> is the group so far\<close>
  "definitionScan t [] = None"
| "definitionScan t (c # cs) =
     (case (if startsWith ''**:'' (c # cs) then definitionBody (drop 3 (c # cs)) else None) of
        Some d \<Rightarrow> Some (t, d)
      | None \<Rightarrow> if isLineTerminator c then None else definitionScan (t @ [c]) cs)"

definition definitionMatch :: "string \<Rightarrow> (string \<times> string) option" where
  \<comment> \<open>groups 1 and 2 of \<open>line.match(/^- \*\*(.+?)\*\*:\s*(.+)$/)\<close>\<close>
  "definitionMatch line =
     (if startsWith ''- **'' line then
        (case drop 4 line of
           [] \<Rightarrow> None
         | c # cs \<Rightarrow> if isLineTerminator c then None else definitionScan [c] cs)
      else None)"

definition pushElement :: "element \<Rightarrow> parser_state \<Rightarrow> parser_state" where
  "pushElement e st = st\<lparr>elements := elements st @ [e]\<rparr>"

definition parseLine :: "string list \<Rightarrow> nat \<Rightarrow> string \<Rightarrow> parser_state \<Rightarrow> parser_state" where
  \<comment> \<open>one turn of the loop of \<open>parseMarkdown\<close>, on line \<open>i\<close>\<close>
  "parseLine bookmarks i line st =
     (if startsWith ''```'' line then
        (if inCodeBlock st then
           st\<lparr>elements := elements st @
                  [CodeBlock (codeBlockId st) (codeBlockLanguage st) (currentCodeBlock st)],
              codeBlockId := codeBlockId st + 1,
              currentCodeBlock := [], inCodeBlock := False, codeBlockLanguage := []\<rparr>
         else st\<lparr>inCodeBlock := True, codeBlockLanguage := drop 3 line\<rparr>)
      else if inCodeBlock st then
        st\<lparr>currentCodeBlock := currentCodeBlock st @ line @ [CHR 0x0A]\<rparr>
      else if startsWith ''# '' line then pushElement (Heading1 i (drop 2 line)) st
      else if startsWith ''## '' line then
        (let match = headerMatch line;
             title = orElse (map_option fst match) (drop 3 line);
             ident = orElse (Option.bind match snd) (slugSpaces title);
             isBookmarked = (ident \<in> set bookmarks)
         in pushElement (Heading2 i ident title isBookmarked) st)
      else if startsWith ''### '' line then pushElement (Heading3 i (drop 4 line)) st
      else if startsWith ''- **'' line then
        (case definitionMatch line of
           Some (term, definition) \<Rightarrow> pushElement (DefinitionItem i term definition) st
         | None \<Rightarrow> st)
      else if startsWith ''- '' line then pushElement (ListItem i (drop 2 line)) st
      else if trim line = ''---'' then pushElement (HorizontalRule i) st
      else if startsWith ''*'' line \<and> endsWith ''*'' line then
        pushElement (Caption i (butlast (drop 1 line))) st
      else if trim line \<noteq> [] then pushElement (Paragraph i line) st
      else st)"

fun parseLines :: "string list \<Rightarrow> nat \<Rightarrow> string list \<Rightarrow> parser_state \<Rightarrow> parser_state" where
  \<comment> \<open>the loop from line \<open>i\<close> on\<close>
  "parseLines bookmarks i [] st = st"
| "parseLines bookmarks i (line # lines) st =
     parseLines bookmarks (Suc i) lines (parseLine bookmarks i line st)"

definition parseMarkdown :: "string list \<Rightarrow> string \<Rightarrow> element list" where
  "parseMarkdown bookmarks text =
     elements (parseLines bookmarks 0 (split CHR 0x0A text) initialParser)"

section \<open>Search Matcher\<close>

record SearchResult =
  res_sectionId :: string
  res_sectionTitle :: string
  res_snippet :: string
  res_line :: nat

record section_cursor =
  cur_id :: string
  cur_title :: string

text \<open>
  The highlight pattern is built from the query text itself,
  \<open>new RegExp(`(${searchQuery})`, 'gi')\<close>. For a query made of pattern characters and
  \<open>.\<close> the pattern is interpreted here (\<open>compilePattern\<close>, \<open>markAll\<close>). For a
  query holding any other syntax character the constructor of the host decides: it
  throws a \<open>SyntaxError\<close> or builds a pattern. The host's constructor is a parameter
  of the search: given the pattern source, it returns the error, or the pattern as the
  function that \<open>replace(regex, '<mark>$1</mark>')\<close> computes with it.
\<close>

datatype js_error = SyntaxError

type_synonym host_regexp = "string \<Rightarrow> js_error + (string \<Rightarrow> string)"

datatype atom = Lit char | AnyChar

definition isSyntaxCharacter :: "char \<Rightarrow> bool" where
  "isSyntaxCharacter c \<longleftrightarrow>
     c \<in> set [CHR ''^'', CHR ''$'', CHR 0x5C, CHR ''.'', CHR ''*'', CHR ''+'', CHR ''?'',
              CHR ''('', CHR '')'', CHR ''['', CHR '']'', CHR ''{'', CHR ''}'', CHR ''|'']"

definition compilePattern :: "string \<Rightarrow> atom list option" where
  "compilePattern q =
     (if \<forall>c \<in> set q. c = CHR ''.'' \<or> \<not> isSyntaxCharacter c
      then Some (map (\<lambda>c. if c = CHR ''.'' then AnyChar else Lit c) q)
      else None)"

fun atomMatches :: "atom \<Rightarrow> char \<Rightarrow> bool" where
  \<comment> \<open>with the flag \<open>i\<close>, two code units below 256 match when their lower-case forms agree\<close>
  "atomMatches (Lit a) c = (toLowerChar a = toLowerChar c)"
| "atomMatches AnyChar c = (\<not> isLineTerminator c)"

definition matchesAt :: "atom list \<Rightarrow> string \<Rightarrow> bool" where
  "matchesAt p s \<longleftrightarrow> length p \<le> length s \<and> list_all2 atomMatches p (take (length p) s)"

function markAll :: "atom list \<Rightarrow> string \<Rightarrow> string" where
  \<comment> \<open>\<open>s.replace(regex, '<mark>$1</mark>')\<close> with the flag \<open>g\<close>: matches are taken
      from left to right, each search starting where the last match ended. The pattern
      has at least one atom, since the query has passed the test on its trimmed form\<close>
  "markAll p [] = []"
| "markAll p (c # cs) =
     (if p \<noteq> [] \<and> matchesAt p (c # cs)
      then ''<mark>'' @ take (length p) (c # cs) @ ''</mark>'' @ markAll p (drop (length p) (c # cs))
      else c # markAll p cs)"
  by pat_completeness auto
termination
  by (relation "measure (\<lambda>(p, s). length s)") auto

definition highlighter :: "host_regexp \<Rightarrow> string \<Rightarrow> js_error + (string \<Rightarrow> string)" where
  \<comment> \<open>\<open>new RegExp(`(${searchQuery})`, 'gi')\<close>, as the replacement it is used for\<close>
  "highlighter host searchQuery =
     (case compilePattern searchQuery of
        Some p \<Rightarrow> Inr (markAll p)
      | None \<Rightarrow> host (''('' @ searchQuery @ '')''))"

definition makeSnippet :: "host_regexp \<Rightarrow> string \<Rightarrow> string \<Rightarrow> js_error + string" where
  \<comment> \<open>the snippet of a line that includes the query; \<open>queryIndex\<close> is -1 when
      \<open>indexOf\<close> finds nothing\<close>
  "makeSnippet host searchQuery ln =
     (let queryIndex = (case indexOf (toLowerCase ln) (toLowerCase searchQuery) of
                          None \<Rightarrow> - 1 | Some k \<Rightarrow> int k);
          start = max 0 (queryIndex - 30);
          end = min (int (length ln)) (queryIndex + int (length searchQuery) + 30);
          s0 = slice (nat start) (nat end) ln;
          s1 = (if start > 0 then ''...'' @ s0 else s0);
          s2 = (if end < int (length ln) then s1 @ ''...'' else s1)
      in case highlighter host searchQuery of
           Inl e \<Rightarrow> Inl e
         | Inr mark \<Rightarrow> Inr (mark s2))"

definition searchLine ::
  "host_regexp \<Rightarrow> string \<Rightarrow> nat \<Rightarrow> string \<Rightarrow> section_cursor \<times> SearchResult list \<Rightarrow>
   js_error + (section_cursor \<times> SearchResult list)" where
  \<comment> \<open>the callback of \<open>lines.forEach\<close>, on the line at \<open>index\<close>\<close>
  "searchLine host searchQuery index ln st =
     (case headerMatch ln of
        Some (t, i) \<Rightarrow> Inr (\<lparr>cur_id = orElse i (slugSpaces t), cur_title = t\<rparr>, snd st)
      | None \<Rightarrow>
          if includesStr (toLowerCase ln) (toLowerCase searchQuery) then
            (case makeSnippet host searchQuery ln of
               Inl e \<Rightarrow> Inl e
             | Inr sn \<Rightarrow>
                 Inr (fst st,
                      snd st @ [\<lparr>res_sectionId = cur_id (fst st),
                                 res_sectionTitle = cur_title (fst st),
                                 res_snippet = sn, res_line = index + 1\<rparr>]))
          else Inr st)"

fun searchLines ::
  "host_regexp \<Rightarrow> string \<Rightarrow> nat \<Rightarrow> string list \<Rightarrow> section_cursor \<times> SearchResult list \<Rightarrow>
   js_error + (section_cursor \<times> SearchResult list)" where
  \<comment> \<open>\<open>lines.forEach\<close> from the line at \<open>index\<close> on; an error thrown in the callback
      ends the loop\<close>
  "searchLines host searchQuery index [] st = Inr st"
| "searchLines host searchQuery index (ln # lns) st =
     (case searchLine host searchQuery index ln st of
        Inl e \<Rightarrow> Inl e
      | Inr st' \<Rightarrow> searchLines host searchQuery (Suc index) lns st')"

definition searchResults :: "host_regexp \<Rightarrow> string \<Rightarrow> string \<Rightarrow> js_error + SearchResult list" where
  \<comment> \<open>the results for a document text and a query: the list returned, or the error
      thrown\<close>
  "searchResults host content searchQuery =
     (if trim searchQuery = [] then Inr []
      else case searchLines host searchQuery 0 (split CHR 0x0A content)
                  (\<lparr>cur_id = ''intro'', cur_title = ''Introduction''\<rparr>, []) of
             Inl e \<Rightarrow> Inl e
           | Inr st \<Rightarrow> Inr (take 20 (snd st)))"

section \<open>Notes\<close>

record Note =
  note_id :: string
  note_title :: string
  note_content :: string
  note_section :: string
  note_tags :: "string list"
  createdAt :: nat
  updatedAt :: nat

record NewNote =
  new_title :: string
  new_content :: string
  new_section :: string
  new_tags :: string

record notes_state =
  notesList :: "Note list"
  newNote :: NewNote
  showNewNoteForm :: bool

definition addNote :: "nat \<Rightarrow> notes_state \<Rightarrow> notes_state" where
  \<comment> \<open>\<open>now\<close> is the clock reading, in milliseconds, that \<open>Date.now()\<close> and
      \<open>new Date()\<close> give; \<open>setNotes\<close>, \<open>setNewNote\<close> and \<open>setShowNewNoteForm\<close>
      are the three updates of the state\<close>
  "addNote now st =
     (if trim (new_title (newNote st)) \<noteq> [] \<and> trim (new_content (newNote st)) \<noteq> [] then
        (let note = \<lparr>note_id = showNat now,
                     note_title = new_title (newNote st),
                     note_content = new_content (newNote st),
                     note_section = orElse (Some (new_section (newNote st))) ''General'',
                     note_tags = filter (\<lambda>tag. tag \<noteq> [])
                                   (map trim (split CHR '','' (new_tags (newNote st)))),
                     createdAt = now, updatedAt = now\<rparr>
         in st\<lparr>notesList := note # notesList st,
               newNote := \<lparr>new_title = [], new_content = [], new_section = [], new_tags = []\<rparr>,
               showNewNoteForm := False\<rparr>)
      else st)"

section \<open>Document loader\<close>

datatype load_error = ContentNotFound string

fun titleAfterSpaces :: "nat \<Rightarrow> string \<Rightarrow> string option" where
  \<comment> \<open>\<open>\s+(.+)$\<close> after the \<open>#\<close>: the greedy \<open>\s+\<close> tries \<open>j\<close> characters, then fewer\<close>
  "titleAfterSpaces 0 r = None"
| "titleAfterSpaces (Suc j) r =
     (let t = takeWhile (\<lambda>c. \<not> isLineTerminator c) (drop (Suc j) r)
      in if t \<noteq> [] then Some t else titleAfterSpaces j r)"

definition titleAt :: "string \<Rightarrow> string option" where
  "titleAt s =
     (case s of
        [] \<Rightarrow> None
      | c # r \<Rightarrow> if c = CHR ''#'' then titleAfterSpaces (length (takeWhile isWhiteSpace r)) r
                else None)"

fun scanTitle :: "bool \<Rightarrow> string \<Rightarrow> string option" where
  \<comment> \<open>group 1 of \<open>content.match(/^#\s+(.+)$/m)\<close>; the flag says whether the position is at
      the start of a line\<close>
  "scanTitle atStart [] = None"
| "scanTitle atStart (c # cs) =
     (case (if atStart then titleAt (c # cs) else None) of
        Some t \<Rightarrow> Some t
      | None \<Rightarrow> scanTitle (isLineTerminator c) cs)"

definition loadContent :: "(string \<rightharpoonup> string) \<Rightarrow> string \<Rightarrow> load_error + Document" where
  \<comment> \<open>the body of the \<open>try\<close> block\<close>
  "loadContent contentMap contentId =
     (case contentMap contentId of
        None \<Rightarrow> Inl (ContentNotFound contentId)
      | Some content \<Rightarrow>
          if content = [] then Inl (ContentNotFound contentId)
          else Inr \<lparr>doc_title = (case scanTitle True content of
                                   Some t \<Rightarrow> t | None \<Rightarrow> ''Untitled Document''),
                    doc_content = content,
                    doc_sections = parseMarkdownSections content\<rparr>)"

definition loadMarkdownContent :: "(string \<rightharpoonup> string) \<Rightarrow> string \<Rightarrow> Document" where
  \<comment> \<open>the \<open>catch\<close> block turns the error into the fallback document; the content map
      of \<open>readmes/index.ts\<close> is a parameter\<close>
  "loadMarkdownContent contentMap contentId =
     (case loadContent contentMap contentId of
        Inr d \<Rightarrow> d
      | Inl e \<Rightarrow>
          \<lparr>doc_title = ''Document Not Found'',
           doc_content = ''# Document Not Found'' @ [CHR 0x0A, CHR 0x0A] @
                         ''The requested document '' @ [CHR 0x22] @ contentId @ [CHR 0x22] @
                         '' could not be loaded.'',
           doc_sections = []\<rparr>)"

section \<open>Bookmarks\<close>

definition toggleBookmark :: "string \<Rightarrow> string list \<Rightarrow> string list" where
  "toggleBookmark sectionId prev =
     (if sectionId \<in> set prev then filter (\<lambda>i. i \<noteq> sectionId) prev else prev @ [sectionId])"

section \<open>Example documents\<close>

definition exampleDocument :: string where
  "exampleDocument =
     ''# Doc'' @ [CHR 0x0A, CHR 0x0A] @ ''## Intro {#intro}'' @ [CHR 0x0A] @ ''Hello world'' @
     [CHR 0x0A, CHR 0x0A] @ ''## Next'' @ [CHR 0x0A] @ ''Bye''"

definition manyLines :: string where
  \<comment> \<open>twenty-five lines \<open>ab\<close>, each ended by a newline\<close>
  "manyLines = concat (replicate 25 (''ab'' @ [CHR 0x0A]))"

definition longLineDocument :: string where
  "longLineDocument =
     ''## Sec {#s1}'' @ [CHR 0x0A] @
     ''0123456789012345678901234567890123456789 Needle 0123456789012345678901234567890123456789''"

definition strictHost :: host_regexp where
  \<comment> \<open>a host whose constructor throws on every pattern source it is given\<close>
  "strictHost src = Inl SyntaxError"

definition literalHost :: host_regexp where
  \<comment> \<open>a host that reads the pattern source \<open>(q)\<close> as the characters of \<open>q\<close>, as the
      constructor does for a lone closing brace or bracket\<close>
  "literalHost src = Inr (markAll (map Lit (butlast (drop 1 src))))"

section \<open>The renderer's invariant\<close>

definition bufferClear :: "parser_state \<Rightarrow> bool" where
  \<comment> \<open>outside a code fence the pending buffer and the language are empty\<close>
  "bufferClear st \<longleftrightarrow>
     (\<not> inCodeBlock st \<longrightarrow> currentCodeBlock st = [] \<and> codeBlockLanguage st = [])"

section \<open>Facts about the string primitives\<close>

lemma dropWhile_hd_id: "xs \<noteq> [] \<Longrightarrow> \<not> P (hd xs) \<Longrightarrow> dropWhile P xs = xs"
  by (cases xs) auto

lemma last_dropWhile: "dropWhile P xs \<noteq> [] \<Longrightarrow> last (dropWhile P xs) = last xs"
  by (induction xs) (auto split: if_splits)

lemma trim_id:
  "s \<noteq> [] \<Longrightarrow> \<not> isWhiteSpace (hd s) \<Longrightarrow> \<not> isWhiteSpace (last s) \<Longrightarrow> trim s = s"
  by (simp add: trim_def dropWhile_hd_id hd_rev)

lemma trim_edges:
  assumes "trim s \<noteq> []"
  shows "\<not> isWhiteSpace (hd (trim s)) \<and> \<not> isWhiteSpace (last (trim s))"
proof -
  let ?d = "dropWhile isWhiteSpace s"
  let ?e = "dropWhile isWhiteSpace (rev ?d)"
  from assms have e: "?e \<noteq> []" by (simp add: trim_def)
  then have d: "?d \<noteq> []" by (metis dropWhile.simps(1) rev.simps(1))
  have "\<not> isWhiteSpace (hd ?e)" using e by (rule hd_dropWhile)
  moreover have "last ?e = hd ?d" using last_dropWhile [OF e] d by (simp add: last_rev)
  moreover have "\<not> isWhiteSpace (hd ?d)" using d by (rule hd_dropWhile)
  ultimately show ?thesis using e by (simp add: trim_def hd_rev last_rev)
qed

lemma trim_idem: "trim (trim s) = trim s"
proof (cases "trim s = []")
  case True
  have "trim [] = []" by (simp add: trim_def)
  with True show ?thesis by simp
next
  case False
  then show ?thesis using trim_edges [OF False] by (intro trim_id) auto
qed

lemma set_trim: "set (trim s) \<subseteq> set s"
  by (auto simp: trim_def dest!: set_dropWhileD)

lemma split_no_sep: "\<forall>l \<in> set (split sep s). sep \<notin> set l"
  by (induction s) (auto split: list.splits)

section \<open>Properties of the bookmark list\<close>

text \<open>
  C9. Toggling a bookmark removes every occurrence of the id when the list holds it and
  appends it at the end when it does not; toggling twice with the same id gives back
  the original membership; the other ids keep their membership and relative order.
\<close>

theorem toggleBookmark_spec:
  "(sectionId \<in> set prev \<longrightarrow>
      toggleBookmark sectionId prev = filter (\<lambda>i. i \<noteq> sectionId) prev \<and>
      sectionId \<notin> set (toggleBookmark sectionId prev)) \<and>
   (sectionId \<notin> set prev \<longrightarrow> toggleBookmark sectionId prev = prev @ [sectionId]) \<and>
   set (toggleBookmark sectionId (toggleBookmark sectionId prev)) = set prev \<and>
   filter (\<lambda>i. i \<noteq> sectionId) (toggleBookmark sectionId prev) =
     filter (\<lambda>i. i \<noteq> sectionId) prev"
  by (auto simp: toggleBookmark_def)

theorem toggleBookmark_spec_witness:
  "toggleBookmark ''b'' [''a'', ''b'', ''c'', ''b''] = [''a'', ''c''] \<and>
   toggleBookmark ''d'' [''a'', ''b''] = [''a'', ''b'', ''d''] \<and>
   set (toggleBookmark ''b'' (toggleBookmark ''b'' [''a'', ''b'', ''c'', ''b''])) =
     set [''a'', ''b'', ''c'', ''b'']"
  using toggleBookmark_spec [of "''b''" "[''a'', ''b'', ''c'', ''b'']"]
        toggleBookmark_spec [of "''d''" "[''a'', ''b'']"]
  by (simp add: toggleBookmark_def)

section \<open>Properties of the notes list\<close>

text \<open>
  C10. \<open>addNote\<close> creates a note exactly when the trimmed title and the trimmed
  content of the pending note are both non-empty. When it creates none, the state is
  unchanged. When it creates one, the note is put in front of the list, its section is
  \<open>General\<close> when the pending section was left blank (the empty string) and the
  pending section otherwise, and its tags are the pieces of the tags text between
  commas, each trimmed, the empty ones dropped: every tag is non-empty, has no white
  space at either end and holds no comma.
\<close>

theorem addNote_spec:
  fixes st :: notes_state and now :: nat
  defines "nn \<equiv> newNote st"
  defines "tags \<equiv> filter (\<lambda>t. t \<noteq> []) (map trim (split CHR '','' (new_tags nn)))"
  shows
  "(notesList (addNote now st) \<noteq> notesList st \<longleftrightarrow>
      trim (new_title nn) \<noteq> [] \<and> trim (new_content nn) \<noteq> []) \<and>
   (\<not> (trim (new_title nn) \<noteq> [] \<and> trim (new_content nn) \<noteq> []) \<longrightarrow> addNote now st = st) \<and>
   (trim (new_title nn) \<noteq> [] \<and> trim (new_content nn) \<noteq> [] \<longrightarrow>
      notesList (addNote now st) =
        \<lparr>note_id = showNat now, note_title = new_title nn, note_content = new_content nn,
         note_section = (if new_section nn = [] then ''General'' else new_section nn),
         note_tags = tags, createdAt = now, updatedAt = now\<rparr> # notesList st) \<and>
   (\<forall>t \<in> set tags. t \<noteq> [] \<and> trim t = t \<and> CHR '','' \<notin> set t \<and>
        (\<exists>piece \<in> set (split CHR '','' (new_tags nn)). t = trim piece))"
proof -
  have a: "notesList (addNote now st) \<noteq> notesList st \<longleftrightarrow>
      trim (new_title nn) \<noteq> [] \<and> trim (new_content nn) \<noteq> []"
    by (simp add: addNote_def nn_def Let_def)
  have b: "\<not> (trim (new_title nn) \<noteq> [] \<and> trim (new_content nn) \<noteq> []) \<longrightarrow> addNote now st = st"
    by (simp add: addNote_def nn_def)
  have c: "trim (new_title nn) \<noteq> [] \<and> trim (new_content nn) \<noteq> [] \<longrightarrow>
      notesList (addNote now st) =
        \<lparr>note_id = showNat now, note_title = new_title nn, note_content = new_content nn,
         note_section = (if new_section nn = [] then ''General'' else new_section nn),
         note_tags = tags, createdAt = now, updatedAt = now\<rparr> # notesList st"
    by (simp add: addNote_def nn_def tags_def Let_def orElse_def)
  have d: "\<forall>t \<in> set tags. t \<noteq> [] \<and> trim t = t \<and> CHR '','' \<notin> set t \<and>
        (\<exists>piece \<in> set (split CHR '','' (new_tags nn)). t = trim piece)"
  proof
    fix t assume "t \<in> set tags"
    then obtain piece where
      p: "piece \<in> set (split CHR '','' (new_tags nn))" "t = trim piece" "t \<noteq> []"
      by (auto simp: tags_def)
    have "CHR '','' \<notin> set piece" using p(1) split_no_sep by blast
    then have "CHR '','' \<notin> set t" using set_trim p(2) by blast
    then show "t \<noteq> [] \<and> trim t = t \<and> CHR '','' \<notin> set t \<and>
        (\<exists>piece \<in> set (split CHR '','' (new_tags nn)). t = trim piece)"
      using p by (auto simp: trim_idem)
  qed
  from a b c d show ?thesis by blast
qed

theorem addNote_spec_witness:
  "notesList (addNote 1234
      \<lparr>notesList = [],
       newNote = \<lparr>new_title = ''t'', new_content = '' c'', new_section = [],
                  new_tags = ''a, b,,c ''\<rparr>,
       showNewNoteForm = True\<rparr>)
    = [\<lparr>note_id = ''1234'', note_title = ''t'', note_content = '' c'',
        note_section = ''General'', note_tags = [''a'', ''b'', ''c''],
        createdAt = 1234, updatedAt = 1234\<rparr>] \<and>
   addNote 1234
      \<lparr>notesList = [],
       newNote = \<lparr>new_title = '' '', new_content = ''c'', new_section = [], new_tags = []\<rparr>,
       showNewNoteForm = True\<rparr>
    = \<lparr>notesList = [],
       newNote = \<lparr>new_title = '' '', new_content = ''c'', new_section = [], new_tags = []\<rparr>,
       showNewNoteForm = True\<rparr>"
  using addNote_spec [of 1234
      "\<lparr>notesList = [],
        newNote = \<lparr>new_title = ''t'', new_content = '' c'', new_section = [],
                   new_tags = ''a, b,,c ''\<rparr>,
        showNewNoteForm = True\<rparr>"]
    addNote_spec [of 1234
      "\<lparr>notesList = [],
        newNote = \<lparr>new_title = '' '', new_content = ''c'', new_section = [], new_tags = []\<rparr>,
        showNewNoteForm = True\<rparr>"]
  by code_simp

section \<open>Properties of the document loader\<close>

text \<open>
  C8. For a content id with no entry in the content map, the error raised inside
  \<open>loadMarkdownContent\<close> is caught there, and the function returns the placeholder
  document: title \<open>Document Not Found\<close>, no sections, and a content that names the
  requested id.
\<close>

theorem loadMarkdownContent_not_found:
  assumes "contentMap contentId = None"
  shows "loadContent contentMap contentId = Inl (ContentNotFound contentId) \<and>
         loadMarkdownContent contentMap contentId =
           \<lparr>doc_title = ''Document Not Found'',
            doc_content = ''# Document Not Found'' @ [CHR 0x0A, CHR 0x0A] @
                          ''The requested document '' @ [CHR 0x22] @ contentId @ [CHR 0x22] @
                          '' could not be loaded.'',
            doc_sections = []\<rparr>"
  using assms by (simp add: loadMarkdownContent_def loadContent_def)

theorem loadMarkdownContent_not_found_witness:
  "(Map.empty(''react'' \<mapsto> ''# React'')) ''vue'' = None \<and>
   doc_title (loadMarkdownContent (Map.empty(''react'' \<mapsto> ''# React'')) ''vue'') =
     ''Document Not Found'' \<and>
   doc_sections (loadMarkdownContent (Map.empty(''react'' \<mapsto> ''# React'')) ''vue'') = [] \<and>
   doc_title (loadMarkdownContent (Map.empty(''react'' \<mapsto> ''# React'')) ''react'') = ''React''"
  using loadMarkdownContent_not_found [of "Map.empty(''react'' \<mapsto> ''# React'')" "''vue''"]
  by (simp add: loadMarkdownContent_def loadContent_def titleAt_def isWhiteSpace_def
      isLineTerminator_def)

section \<open>Properties of the search\<close>

lemma searchLines_no_match:
  "\<forall>ln \<in> set ls. \<not> includesStr (toLowerCase ln) (toLowerCase q) \<Longrightarrow>
   \<exists>c. searchLines host q i ls (cur, rs) = Inr (c, rs)"
proof (induction ls arbitrary: i cur)
  case Nil
  then show ?case by simp
next
  case (Cons ln ls)
  then show ?case by (auto simp: searchLine_def split: option.splits)
qed

lemma highlighter_interpreted:
  "compilePattern q = Some p \<Longrightarrow> highlighter host q = Inr (markAll p)"
  by (simp add: highlighter_def)

lemma highlighter_host:
  "compilePattern q = None \<Longrightarrow> highlighter host q = host (''('' @ q @ '')'')"
  by (simp add: highlighter_def)

lemma compilePattern_None:
  "compilePattern q = None \<longleftrightarrow> (\<exists>c \<in> set q. c \<noteq> CHR ''.'' \<and> isSyntaxCharacter c)"
  by (auto simp: compilePattern_def)

lemma searchLines_total:
  "highlighter host q = Inr mark \<Longrightarrow> \<exists>st'. searchLines host q i ls st = Inr st'"
proof (induction ls arbitrary: i st)
  case Nil
  then show ?case by simp
next
  case (Cons ln ls)
  then show ?case
    by (auto simp: searchLine_def makeSnippet_def Let_def split: option.splits)
qed

lemma searchLines_error:
  "searchLines host q i ls st = Inl e \<Longrightarrow>
   highlighter host q = Inl e \<and>
   (\<exists>ln \<in> set ls. headerMatch ln = None \<and> includesStr (toLowerCase ln) (toLowerCase q))"
proof (induction ls arbitrary: i st)
  case Nil
  then show ?case by simp
next
  case (Cons ln ls)
  show ?case
  proof (cases "searchLine host q i ln st")
    case (Inl e')
    with Cons.prems have e: "e' = e" by simp
    from Inl have "highlighter host q = Inl e'" "headerMatch ln = None"
      "includesStr (toLowerCase ln) (toLowerCase q)"
      by (auto simp: searchLine_def makeSnippet_def Let_def
          split: option.splits if_splits sum.splits)
    with e show ?thesis by simp
  next
    case (Inr st')
    with Cons.prems have "searchLines host q (Suc i) ls st' = Inl e" by simp
    from Cons.IH [OF this] show ?thesis by auto
  qed
qed

text \<open>
  C5. For every document text, every query and every host: the empty query gives no
  results; a query that no line includes (case-insensitively) gives no results; and a
  returned result list has at most 20 entries. The search returns a list for every
  query made of pattern characters and \<open>.\<close>, and for every other query on which
  the host's constructor builds a pattern. It returns no list only when the query holds
  another syntax character, a line that is searched includes it, and the host's
  constructor throws on the pattern source; the error is then the constructor's.
\<close>

theorem searchResults_bounds:
  "searchResults host content [] = Inr [] \<and>
   ((\<forall>ln \<in> set (split CHR 0x0A content). \<not> includesStr (toLowerCase ln) (toLowerCase q)) \<longrightarrow>
      searchResults host content q = Inr []) \<and>
   (\<forall>rs. searchResults host content q = Inr rs \<longrightarrow> length rs \<le> 20) \<and>
   ((\<forall>c \<in> set q. c = CHR ''.'' \<or> \<not> isSyntaxCharacter c) \<longrightarrow>
      (\<exists>rs. searchResults host content q = Inr rs)) \<and>
   (\<forall>mark. host (''('' @ q @ '')'') = Inr mark \<longrightarrow>
      (\<exists>rs. searchResults host content q = Inr rs)) \<and>
   (\<forall>e. searchResults host content q = Inl e \<longrightarrow>
      host (''('' @ q @ '')'') = Inl e \<and>
      (\<exists>c \<in> set q. c \<noteq> CHR ''.'' \<and> isSyntaxCharacter c) \<and>
      (\<exists>ln \<in> set (split CHR 0x0A content).
         headerMatch ln = None \<and> includesStr (toLowerCase ln) (toLowerCase q)))"
proof -
  let ?init = "(\<lparr>cur_id = ''intro'', cur_title = ''Introduction''\<rparr>, [] :: SearchResult list)"
  let ?lines = "split CHR 0x0A content"
  have a: "searchResults host content [] = Inr []"
    by (simp add: searchResults_def trim_def)
  have b: "(\<forall>ln \<in> set ?lines. \<not> includesStr (toLowerCase ln) (toLowerCase q)) \<longrightarrow>
      searchResults host content q = Inr []"
  proof
    assume h: "\<forall>ln \<in> set ?lines. \<not> includesStr (toLowerCase ln) (toLowerCase q)"
    obtain c where "searchLines host q 0 ?lines ?init = Inr (c, [])"
      using searchLines_no_match [OF h] by blast
    then show "searchResults host content q = Inr []" by (simp add: searchResults_def)
  qed
  have c: "\<forall>rs. searchResults host content q = Inr rs \<longrightarrow> length rs \<le> 20"
    by (auto simp: searchResults_def split: if_splits sum.splits)
  have returns: "\<exists>rs. searchResults host content q = Inr rs"
    if "highlighter host q = Inr mark" for mark
    using searchLines_total [OF that, of 0 ?lines ?init]
    by (auto simp: searchResults_def)
  have d: "(\<forall>c \<in> set q. c = CHR ''.'' \<or> \<not> isSyntaxCharacter c) \<longrightarrow>
      (\<exists>rs. searchResults host content q = Inr rs)"
  proof
    assume "\<forall>c \<in> set q. c = CHR ''.'' \<or> \<not> isSyntaxCharacter c"
    then obtain p where "compilePattern q = Some p" by (simp add: compilePattern_def)
    from returns [OF highlighter_interpreted [OF this]]
    show "\<exists>rs. searchResults host content q = Inr rs" .
  qed
  have e: "\<forall>mark. host (''('' @ q @ '')'') = Inr mark \<longrightarrow>
      (\<exists>rs. searchResults host content q = Inr rs)"
  proof (intro allI impI)
    fix mark assume m: "host (''('' @ q @ '')'') = Inr mark"
    show "\<exists>rs. searchResults host content q = Inr rs"
    proof (cases "compilePattern q")
      case None
      from returns [of mark] highlighter_host [OF None, of host] m show ?thesis by simp
    next
      case (Some p)
      from returns [OF highlighter_interpreted [OF Some]] show ?thesis .
    qed
  qed
  have f: "\<forall>e. searchResults host content q = Inl e \<longrightarrow>
      host (''('' @ q @ '')'') = Inl e \<and>
      (\<exists>c \<in> set q. c \<noteq> CHR ''.'' \<and> isSyntaxCharacter c) \<and>
      (\<exists>ln \<in> set ?lines.
         headerMatch ln = None \<and> includesStr (toLowerCase ln) (toLowerCase q))"
  proof (intro allI impI)
    fix e assume "searchResults host content q = Inl e"
    then have "searchLines host q 0 ?lines ?init = Inl e"
      by (auto simp: searchResults_def split: if_splits sum.splits)
    from searchLines_error [OF this] have
      thrown: "highlighter host q = Inl e" and
      line: "\<exists>ln \<in> set ?lines.
         headerMatch ln = None \<and> includesStr (toLowerCase ln) (toLowerCase q)"
      by auto
    have none: "compilePattern q = None"
      using thrown by (cases "compilePattern q") (auto simp: highlighter_def)
    with thrown have "host (''('' @ q @ '')'') = Inl e" by (simp add: highlighter_def)
    with none line show "host (''('' @ q @ '')'') = Inl e \<and>
      (\<exists>c \<in> set q. c \<noteq> CHR ''.'' \<and> isSyntaxCharacter c) \<and>
      (\<exists>ln \<in> set ?lines.
         headerMatch ln = None \<and> includesStr (toLowerCase ln) (toLowerCase q))"
      by (simp add: compilePattern_None)
  qed
  from a b c d e f show ?thesis by blast
qed

theorem searchResults_bounds_witness:
  "searchResults strictHost manyLines [] = Inr [] \<and>
   searchResults strictHost manyLines ''zzz'' = Inr [] \<and>
   (case searchResults strictHost manyLines ''B'' of
      Inl e \<Rightarrow> False | Inr rs \<Rightarrow> length rs = 20) \<and>
   length (filter (\<lambda>ln. includesStr (toLowerCase ln) (toLowerCase ''B''))
             (split CHR 0x0A manyLines)) = 25 \<and>
   searchResults literalHost ''a}b'' ''}'' =
     Inr [\<lparr>res_sectionId = ''intro'', res_sectionTitle = ''Introduction'',
            res_snippet = ''a<mark>}</mark>b'', res_line = 1\<rparr>] \<and>
   searchResults strictHost ''f(x)'' ''('' = Inl SyntaxError \<and>
   strictHost ''(()'' = Inl SyntaxError"
proof -
  have p: "\<forall>ln \<in> set (split CHR 0x0A manyLines).
             \<not> includesStr (toLowerCase ln) (toLowerCase ''zzz'')"
    by code_simp
  have "searchResults strictHost manyLines ''zzz'' = Inr []"
    using searchResults_bounds [of strictHost manyLines "''zzz''"] p by blast
  moreover have "searchResults strictHost manyLines [] = Inr []"
    using searchResults_bounds [of strictHost manyLines] by blast
  moreover have "case searchResults strictHost manyLines ''B'' of
      Inl e \<Rightarrow> False | Inr rs \<Rightarrow> length rs = 20"
    by code_simp
  moreover have "length (filter (\<lambda>ln. includesStr (toLowerCase ln) (toLowerCase ''B''))
                (split CHR 0x0A manyLines)) = 25"
    by code_simp
  moreover have "searchResults literalHost ''a}b'' ''}'' =
     Inr [\<lparr>res_sectionId = ''intro'', res_sectionTitle = ''Introduction'',
            res_snippet = ''a<mark>}</mark>b'', res_line = 1\<rparr>]"
    by code_simp
  moreover have "searchResults strictHost ''f(x)'' ''('' = Inl SyntaxError"
    by code_simp
  moreover have "strictHost ''(()'' = Inl SyntaxError"
    using searchResults_bounds [of strictHost "''f(x)''" "''(''"]
      \<open>searchResults strictHost ''f(x)'' ''('' = Inl SyntaxError\<close> by simp
  ultimately show ?thesis by blast
qed

text \<open>
  C7. In the example document, whatever the host, the query \<open>hello\<close> has exactly
  one result: section id
  \<open>intro\<close>, line 4, and a snippet with \<open>Hello\<close> inside the highlight marker. The
  heading lines give no result of their own (the queries \<open>intro\<close> and \<open>next\<close>
  occur in heading lines only and find nothing); they move the section cursor, as the
  result for \<open>bye\<close> under the second heading shows.
\<close>

theorem search_hello_example:
  "searchResults host exampleDocument ''hello'' =
     Inr [\<lparr>res_sectionId = ''intro'', res_sectionTitle = ''Intro'',
            res_snippet = ''<mark>Hello</mark> world'', res_line = 4\<rparr>] \<and>
   searchResults host exampleDocument ''intro'' = Inr [] \<and>
   searchResults host exampleDocument ''next'' = Inr [] \<and>
   searchResults host exampleDocument ''bye'' =
     Inr [\<lparr>res_sectionId = ''next'', res_sectionTitle = ''Next'',
            res_snippet = ''<mark>Bye</mark>'', res_line = 7\<rparr>]"
  by code_simp

theorem search_hello_example_witness:
  "searchResults strictHost exampleDocument ''hello'' =
     Inr [\<lparr>res_sectionId = ''intro'', res_sectionTitle = ''Intro'',
           res_snippet = ''<mark>Hello</mark> world'', res_line = 4\<rparr>] \<and>
   searchResults literalHost exampleDocument ''hello'' =
     Inr [\<lparr>res_sectionId = ''intro'', res_sectionTitle = ''Intro'',
           res_snippet = ''<mark>Hello</mark> world'', res_line = 4\<rparr>]"
  using search_hello_example [of strictHost] search_hello_example [of literalHost] by simp

section \<open>Heading ids in the three places that derive them\<close>

lemma headerScan_nonempty: "headerScan t r = Some (t', i) \<Longrightarrow> t \<noteq> [] \<Longrightarrow> t' \<noteq> []"
  by (induction t r rule: headerScan.induct) (auto split: option.splits if_splits)

lemma headerMatch_nonempty:
  "headerMatch ln = Some (t, i) \<Longrightarrow> t \<noteq> [] \<and> startsWith ''## '' ln"
  by (auto simp: headerMatch_def split: if_splits list.splits dest: headerScan_nonempty)

lemma startsWith_h2_not_others:
  "startsWith ''## '' ln \<Longrightarrow> \<not> startsWith ''```'' ln \<and> \<not> startsWith ''# '' ln"
  by (cases ln; cases "tl ln") (auto simp: startsWith_def)

text \<open>
  On a line that the level-2 heading pattern matches, the renderer and the search
  derive the id and the title of the heading in the same way.
\<close>

lemma renderer_search_same_id:
  assumes "headerMatch ln = Some (t, i)" and "\<not> inCodeBlock st"
  shows "parseLine bookmarks k ln st =
           pushElement (Heading2 k (orElse i (slugSpaces t)) t
                          (orElse i (slugSpaces t) \<in> set bookmarks)) st \<and>
         searchLine host q k ln (cur, rs) =
           Inr (\<lparr>cur_id = orElse i (slugSpaces t), cur_title = t\<rparr>, rs)"
  using assms headerMatch_nonempty [OF assms(1)] startsWith_h2_not_others [of ln]
  by (cases i) (simp_all add: parseLine_def searchLine_def orElse_def Let_def)

text \<open>
  C1. The claim is that the renderer, the section extractor and the search cursor derive
  the same id for a level-2 heading without an explicit id. The heading
  \<open>## Authentication & Security\<close> of the Node.js guide shows that they do not: the
  renderer and the search replace runs of white space, the extractor replaces runs of
  characters outside \<open>a-z0-9\<close>.
\<close>

theorem heading_id_divergence:
  "parseMarkdown [] ''## Authentication & Security'' =
     [Heading2 0 ''authentication-&-security'' ''Authentication & Security'' False] \<and>
   searchLine host ''auth'' 0 ''## Authentication & Security''
       (\<lparr>cur_id = ''intro'', cur_title = ''Introduction''\<rparr>, []) =
     Inr (\<lparr>cur_id = ''authentication-&-security'',
            cur_title = ''Authentication & Security''\<rparr>, []) \<and>
   parseMarkdownSections ''## Authentication & Security'' =
     [\<lparr>sec_id = ''authentication-security'', sec_title = ''Authentication & Security'',
       sec_level = 2\<rparr>]"
  by code_simp

theorem heading_id_divergence_witness:
  "map sec_id (parseMarkdownSections ''## Authentication & Security'') =
     [''authentication-security''] \<and>
   parseMarkdown [] ''## Authentication & Security'' \<noteq>
     [Heading2 0 ''authentication-security'' ''Authentication & Security'' False]"
  using heading_id_divergence by simp

section \<open>Properties of the renderer\<close>

text \<open>
  C2. The claim is that every non-empty line outside a code fence gives its text to
  some emitted element. A line that starts with \<open>- **\<close> and puts the colon inside
  the emphasis does not match the definition pattern; the renderer then emits nothing
  for it, where the same text as a plain bullet or with the colon after the emphasis
  is emitted. The guides have such lines outside code fences (\<open>Cloud Logging\<close>),
  and lines where nothing follows the colon (\<open>Choose SQL when\<close>), dropped as well.
\<close>

theorem bold_bullet_text_lost:
  "parseMarkdown []
     ''- **Multithreading:** Runs multiple threads within a single process.'' = [] \<and>
   parseMarkdown [] ''- Multithreading: Runs multiple threads within a single process.'' =
     [ListItem 0 ''Multithreading: Runs multiple threads within a single process.''] \<and>
   parseMarkdown [] ''- **Multithreading**: Runs multiple threads within a single process.'' =
     [DefinitionItem 0 ''Multithreading'' ''Runs multiple threads within a single process.''] \<and>
   parseMarkdown []
     ''- **Cloud Logging:** Collect/store logs, export to BigQuery, create log-based metrics.'' =
     [] \<and>
   parseMarkdown [] ''- **Choose SQL when**:'' = []"
  by code_simp

theorem bold_bullet_text_lost_witness:
  "length (parseMarkdown []
     ''- **Multithreading:** Runs multiple threads within a single process.'') = 0"
  using bold_bullet_text_lost by simp

text \<open>
  Outside a code fence, these are the only lines with text that the renderer drops:
  every other line that is not blank and opens no fence gives exactly one element.
\<close>

lemma parseLine_pushes_one:
  assumes normal: "\<not> inCodeBlock st" and nofence: "\<not> startsWith ''```'' ln"
    and nonblank: "trim ln \<noteq> []"
    and matched: "startsWith ''- **'' ln \<longrightarrow> definitionMatch ln \<noteq> None"
  shows "\<exists>e. parseLine bookmarks i ln st = pushElement e st"
proof -
  consider
      (h1) "startsWith ''# '' ln"
    | (h2) "\<not> startsWith ''# '' ln" "startsWith ''## '' ln"
    | (h3) "\<not> startsWith ''# '' ln" "\<not> startsWith ''## '' ln" "startsWith ''### '' ln"
    | (defn) "\<not> startsWith ''# '' ln" "\<not> startsWith ''## '' ln" "\<not> startsWith ''### '' ln"
        "startsWith ''- **'' ln"
    | (bullet) "\<not> startsWith ''# '' ln" "\<not> startsWith ''## '' ln" "\<not> startsWith ''### '' ln"
        "\<not> startsWith ''- **'' ln" "startsWith ''- '' ln"
    | (hr) "\<not> startsWith ''# '' ln" "\<not> startsWith ''## '' ln" "\<not> startsWith ''### '' ln"
        "\<not> startsWith ''- **'' ln" "\<not> startsWith ''- '' ln" "trim ln = ''---''"
    | (caption) "\<not> startsWith ''# '' ln" "\<not> startsWith ''## '' ln" "\<not> startsWith ''### '' ln"
        "\<not> startsWith ''- **'' ln" "\<not> startsWith ''- '' ln" "trim ln \<noteq> ''---''"
        "startsWith ''*'' ln \<and> endsWith ''*'' ln"
    | (para) "\<not> startsWith ''# '' ln" "\<not> startsWith ''## '' ln" "\<not> startsWith ''### '' ln"
        "\<not> startsWith ''- **'' ln" "\<not> startsWith ''- '' ln" "trim ln \<noteq> ''---''"
        "\<not> (startsWith ''*'' ln \<and> endsWith ''*'' ln)"
    by blast
  then show ?thesis
  proof cases
    case h1
    with normal nofence show ?thesis by (auto simp: parseLine_def)
  next
    case h2
    with normal nofence show ?thesis by (auto simp: parseLine_def Let_def)
  next
    case h3
    with normal nofence show ?thesis by (auto simp: parseLine_def)
  next
    case defn
    with matched obtain t d where "definitionMatch ln = Some (t, d)" by auto
    with defn normal nofence show ?thesis by (auto simp: parseLine_def)
  next
    case bullet
    with normal nofence show ?thesis by (auto simp: parseLine_def)
  next
    case hr
    with normal nofence show ?thesis by (auto simp: parseLine_def)
  next
    case caption
    with normal nofence show ?thesis by (auto simp: parseLine_def)
  next
    case para
    with normal nofence nonblank show ?thesis by (auto simp: parseLine_def)
  qed
qed

lemma parseLines_append:
  "parseLines bm i (xs @ ys) st = parseLines bm (i + length xs) ys (parseLines bm i xs st)"
  by (induction xs arbitrary: i st) simp_all

lemma parseLine_bufferClear: "bufferClear st \<Longrightarrow> bufferClear (parseLine bm i l st)"
  by (simp add: bufferClear_def parseLine_def pushElement_def Let_def split: option.splits)

lemma parseLines_bufferClear: "bufferClear st \<Longrightarrow> bufferClear (parseLines bm i ls st)"
  by (induction ls arbitrary: i st) (simp_all add: parseLine_bufferClear)

lemma parseLines_body:
  "inCodeBlock st \<Longrightarrow> \<forall>l \<in> set body. \<not> startsWith ''```'' l \<Longrightarrow>
   parseLines bm i body st =
     st\<lparr>currentCodeBlock := currentCodeBlock st @ concat (map (\<lambda>l. l @ [CHR 0x0A]) body)\<rparr>"
  by (induction body arbitrary: i st) (simp_all add: parseLine_def)

lemma parseLine_elements:
  "parseLine bm i l (st\<lparr>elements := es @ elements st\<rparr>) =
     (parseLine bm i l st)\<lparr>elements := es @ elements (parseLine bm i l st)\<rparr>"
  by (simp add: parseLine_def pushElement_def Let_def split: option.splits)

lemma parseLines_elements:
  "parseLines bm i ls (st\<lparr>elements := es @ elements st\<rparr>) =
     (parseLines bm i ls st)\<lparr>elements := es @ elements (parseLines bm i ls st)\<rparr>"
  by (induction ls arbitrary: i st) (simp_all add: parseLine_elements)

lemma parseLines_from:
  "elements (parseLines bm i ls st) =
     elements st @ elements (parseLines bm i ls (st\<lparr>elements := []\<rparr>))"
  using parseLines_elements [of bm i ls "elements st" "st\<lparr>elements := []\<rparr>"] by simp

text \<open>
  C3. Take a text in which a line starting with three backticks opens a fence while the
  renderer is outside a code block, followed by interior lines (none starting with
  three backticks) and a closing line starting with three backticks. The renderer emits
  for these lines exactly one code block, after the elements of the lines before and
  before the elements of the lines after: its language is what follows the backticks
  of the opening line, and its text is the interior lines, each followed by a newline,
  whatever they look like. The three-line example gives one code block with language
  \<open>js\<close>.
\<close>

theorem fenced_block_is_one_code_element:
  assumes lines: "split CHR 0x0A text = pre @ (''```'' @ lang) # body @ closing # post"
    and normal: "\<not> inCodeBlock (parseLines bookmarks 0 pre initialParser)"
    and body: "\<forall>l \<in> set body. \<not> startsWith ''```'' l"
    and closing: "startsWith ''```'' closing"
  shows "parseMarkdown bookmarks text =
           elements (parseLines bookmarks 0 pre initialParser) @
           [CodeBlock (codeBlockId (parseLines bookmarks 0 pre initialParser)) lang
              (concat (map (\<lambda>l. l @ [CHR 0x0A]) body))] @
           elements (parseLines bookmarks (length pre + length body + 2) post
              ((parseLines bookmarks 0 pre initialParser)
                 \<lparr>codeBlockId := codeBlockId (parseLines bookmarks 0 pre initialParser) + 1,
                  elements := []\<rparr>))"
proof -
  let ?st = "parseLines bookmarks 0 pre initialParser"
  let ?code = "concat (map (\<lambda>l. l @ [CHR 0x0A]) body)"
  have clear: "bufferClear ?st"
    by (rule parseLines_bufferClear) (simp add: bufferClear_def initialParser_def)
  with normal have empty: "currentCodeBlock ?st = []" "codeBlockLanguage ?st = []"
    by (simp_all add: bufferClear_def)
  let ?opened = "?st\<lparr>inCodeBlock := True, codeBlockLanguage := lang\<rparr>"
  have opened: "parseLine bookmarks (length pre) (''```'' @ lang) ?st = ?opened"
    using normal by (simp add: parseLine_def startsWith_def)
  have filled: "parseLines bookmarks (Suc (length pre)) body ?opened =
      ?opened\<lparr>currentCodeBlock := ?code\<rparr>"
    using parseLines_body [of ?opened body bookmarks "Suc (length pre)"] body empty by simp
  let ?closed = "?st\<lparr>elements := elements ?st @ [CodeBlock (codeBlockId ?st) lang ?code],
                      codeBlockId := codeBlockId ?st + 1\<rparr>"
  have closed: "parseLine bookmarks k closing
      (?opened\<lparr>currentCodeBlock := ?code\<rparr>) = ?closed" for k
    using closing normal empty by (simp add: parseLine_def)
  have run: "parseLines bookmarks 0 (split CHR 0x0A text) initialParser =
      parseLines bookmarks (length pre + length body + 2) post ?closed"
    by (simp add: lines parseLines_append opened filled closed del: append.simps)
  have "elements (parseLines bookmarks (length pre + length body + 2) post ?closed) =
      elements ?closed @
      elements (parseLines bookmarks (length pre + length body + 2) post
                  (?closed\<lparr>elements := []\<rparr>))"
    by (rule parseLines_from)
  then show ?thesis by (simp add: parseMarkdown_def run)
qed

theorem fenced_block_is_one_code_element_witness:
  "parseMarkdown [] (''```js'' @ [CHR 0x0A] @ ''function f() { return 1; }'' @ [CHR 0x0A] @ ''```'') =
     [CodeBlock 0 ''js'' (''function f() { return 1; }'' @ [CHR 0x0A])] \<and>
   parseMarkdown [] (''intro'' @ [CHR 0x0A] @ ''```md'' @ [CHR 0x0A] @ ''# not a heading'' @
       [CHR 0x0A] @ ''- not a bullet'' @ [CHR 0x0A] @ ''```'' @ [CHR 0x0A] @ ''# After'') =
     [Paragraph 0 ''intro'',
      CodeBlock 0 ''md'' (''# not a heading'' @ [CHR 0x0A] @ ''- not a bullet'' @ [CHR 0x0A]),
      Heading1 5 ''After'']"
proof -
  have a: "split CHR 0x0A (''```js'' @ [CHR 0x0A] @ ''function f() { return 1; }'' @ [CHR 0x0A] @ ''```'')
      = [] @ (''```'' @ ''js'') # [''function f() { return 1; }''] @ ''```'' # []"
    by code_simp
  have b: "split CHR 0x0A (''intro'' @ [CHR 0x0A] @ ''```md'' @ [CHR 0x0A] @ ''# not a heading'' @
       [CHR 0x0A] @ ''- not a bullet'' @ [CHR 0x0A] @ ''```'' @ [CHR 0x0A] @ ''# After'')
      = [''intro''] @ (''```'' @ ''md'') # [''# not a heading'', ''- not a bullet''] @ ''```'' # [''# After'']"
    by code_simp
  have c: "\<not> inCodeBlock (parseLines [] 0 [] initialParser)"
     "\<forall>l \<in> set [''function f() { return 1; }'']. \<not> startsWith ''```'' l"
     "startsWith ''```'' ''```''"
     "\<not> inCodeBlock (parseLines [] 0 [''intro''] initialParser)"
     "\<forall>l \<in> set [''# not a heading'', ''- not a bullet'']. \<not> startsWith ''```'' l"
    by code_simp+
  show ?thesis
    using fenced_block_is_one_code_element [OF a c(1) c(2) c(3)]
          fenced_block_is_one_code_element [OF b c(4) c(5) c(3)]
    by (simp add: parseLine_def initialParser_def pushElement_def startsWith_def endsWith_def
        trim_def isWhiteSpace_def)
qed

section \<open>Headings with an explicit id\<close>

lemma split_single: "sep \<notin> set s \<Longrightarrow> split sep s = [s]"
  by (induction s) auto

lemma no_id_after_title:
  "u \<noteq> [] \<Longrightarrow> \<not> isWhiteSpace (last u) \<Longrightarrow> CHR ''{'' \<notin> set u \<Longrightarrow>
   \<not> startsWith ''{#'' (dropWhile isWhiteSpace (u @ r))"
proof (induction u)
  case Nil
  then show ?case by simp
next
  case (Cons c u)
  show ?case
  proof (cases "isWhiteSpace c")
    case True
    with Cons.prems have "u \<noteq> []" by auto
    with Cons True show ?thesis by simp
  next
    case False
    with Cons.prems show ?thesis by (auto simp: startsWith_def)
  qed
qed

lemma stripIdSuffix_title:
  "CHR ''{'' \<notin> set u \<Longrightarrow> (u \<noteq> [] \<longrightarrow> \<not> isWhiteSpace (last u)) \<Longrightarrow> idTail r \<Longrightarrow>
   stripIdSuffix (u @ r) = u"
proof (induction u)
  case Nil
  then show ?case by (cases r) (simp_all add: idTail_def startsWith_def)
next
  case (Cons c u)
  have "\<not> idTail ((c # u) @ r)"
    using no_id_after_title [of "c # u" r] Cons.prems by (simp add: idTail_def)
  with Cons show ?case by (simp split: if_splits)
qed

lemma explicitId_skip: "CHR ''{'' \<notin> set u \<Longrightarrow> explicitId (u @ r) = explicitId r"
  by (induction u) (auto simp: startsWith_def)

lemma until_closing_brace:
  "CHR ''}'' \<notin> set i \<Longrightarrow>
   takeWhile (\<lambda>x. x \<noteq> CHR ''}'') (i @ CHR ''}'' # r) = i \<and>
   dropWhile (\<lambda>x. x \<noteq> CHR ''}'') (i @ CHR ''}'' # r) = CHR ''}'' # r"
  by (induction i) auto

lemma explicitId_here:
  "i \<noteq> [] \<Longrightarrow> CHR ''}'' \<notin> set i \<Longrightarrow> explicitId (''{#'' @ i @ ''}'' @ r) = Some i"
  using until_closing_brace [of i r] by (simp add: startsWith_def)

lemma idTail_suffix:
  "\<forall>c \<in> set i. \<not> isLineTerminator c \<Longrightarrow> idTail ('' {#'' @ i @ ''}'')"
  by (simp add: idTail_def startsWith_def isWhiteSpace_def)

lemma idSuffix_suffix:
  "i \<noteq> [] \<Longrightarrow> \<forall>c \<in> set i. \<not> isLineTerminator c \<Longrightarrow> idSuffix ('' {#'' @ i @ ''}'') = Some i"
  by (cases i) (simp_all add: idSuffix_def startsWith_def isWhiteSpace_def)

lemma headerScan_title:
  "CHR ''{'' \<notin> set u \<Longrightarrow> \<forall>c \<in> set u. \<not> isLineTerminator c \<Longrightarrow>
   (u \<noteq> [] \<longrightarrow> \<not> isWhiteSpace (last u)) \<Longrightarrow> idSuffix r = Some i \<Longrightarrow>
   headerScan t (u @ r) = Some (t @ u, Some i)"
proof (induction u arbitrary: t)
  case Nil
  then show ?case by (cases r) (simp_all add: idSuffix_def)
next
  case (Cons c u)
  have "idSuffix ((c # u) @ r) = None"
    using no_id_after_title [of "c # u" r] Cons.prems by (simp add: idSuffix_def Let_def)
  with Cons show ?case by (simp split: if_splits)
qed


text \<open>
  C6. As stated, for every title without braces and every non-empty id, the claim fails:
  see the counterexample below. What holds: for a heading line \<open>## TITLE {#ID}\<close> with
  one space before the suffix, where TITLE is non-empty, has no brace and no line
  terminator and neither starts nor ends with white space, and ID is non-empty and has
  no closing brace and no line terminator, the section extractor returns the one
  section with id ID, title TITLE and level 2, and the renderer emits the one level-2
  heading with id ID and title TITLE.
\<close>

theorem explicit_id_roundtrip:
  assumes title: "title \<noteq> []" "\<not> isWhiteSpace (hd title)" "\<not> isWhiteSpace (last title)"
      "CHR ''{'' \<notin> set title" "CHR ''}'' \<notin> set title"
      "\<forall>c \<in> set title. \<not> isLineTerminator c"
    and ident: "ident \<noteq> []" "CHR ''}'' \<notin> set ident" "\<forall>c \<in> set ident. \<not> isLineTerminator c"
  shows "parseMarkdownSections (''## '' @ title @ '' {#'' @ ident @ ''}'') =
           [\<lparr>sec_id = ident, sec_title = title, sec_level = 2\<rparr>] \<and>
         parseMarkdown bookmarks (''## '' @ title @ '' {#'' @ ident @ ''}'') =
           [Heading2 0 ident title (ident \<in> set bookmarks)]"
proof -
  let ?rest = "'' {#'' @ ident @ ''}''"
  let ?line = "''## '' @ title @ ?rest"
  have nl: "CHR 0x0A \<notin> set ?line"
    using title(6) ident(3) by (auto simp: isLineTerminator_def)
  have lines: "split CHR 0x0A ?line = [?line]"
    by (rule split_single [OF nl])
  obtain c cs where tl: "title = c # cs" using title(1) by (cases title) auto
  have c: "\<not> isWhiteSpace c" "\<not> isLineTerminator c" "c \<noteq> CHR ''{''"
    using title tl by auto
  have last_cs: "cs \<noteq> [] \<longrightarrow> \<not> isWhiteSpace (last cs)" using title(3) tl by auto
  \<comment> \<open>the extractor\<close>
  have trimmed: "trim ?line = ?line"
    by (rule trim_id) (simp_all add: isWhiteSpace_def)
  have hashes: "takeWhile (\<lambda>c. c = CHR ''#'') ?line = ''##''"
    by simp
  have after: "dropWhile isWhiteSpace (dropWhile (\<lambda>c. c = CHR ''#'') ?line) = title @ ?rest"
    using c(1) by (simp add: tl isWhiteSpace_def)
  have stripped: "stripIdSuffix (title @ ?rest) = title"
    using stripIdSuffix_title [of title ?rest] idTail_suffix [OF ident(3)] title by simp
  have "explicitId ?line = explicitId (''{#'' @ ident @ ''}'' @ [])"
    using explicitId_skip [of "''## '' @ title @ '' ''" "''{#'' @ ident @ ''}''"] title(4)
    by simp
  then have explicit: "explicitId ?line = Some ident"
    using explicitId_here [OF ident(1) ident(2), of "[]"] by simp
  have extractor: "sectionOfLine ?line =
      Some \<lparr>sec_id = ident, sec_title = title, sec_level = 2\<rparr>"
    unfolding sectionOfLine_def trimmed Let_def hashes after stripped explicit
    by (simp add: startsWith_def)
  \<comment> \<open>the renderer\<close>
  have scan: "headerScan [c] (cs @ ?rest) = Some ([c] @ cs, Some ident)"
    using headerScan_title [of cs ?rest ident "[c]"] idSuffix_suffix [OF ident(1) ident(3)]
      title tl last_cs by simp
  have header: "headerMatch ?line = Some (title, Some ident)"
    using scan c(2) by (simp add: headerMatch_def startsWith_def tl)
  have "parseLine bookmarks 0 ?line initialParser =
      pushElement (Heading2 0 ident title (ident \<in> set bookmarks)) initialParser"
    using renderer_search_same_id [OF header, where st = initialParser and k = 0
        and bookmarks = bookmarks] ident(1)
    by (simp add: initialParser_def orElse_def)
  then have renderer: "parseMarkdown bookmarks ?line =
      [Heading2 0 ident title (ident \<in> set bookmarks)]"
    unfolding parseMarkdown_def lines by (simp add: pushElement_def initialParser_def)
  from extractor renderer show ?thesis
    unfolding parseMarkdownSections_def lines by (simp add: List.map_filter_simps)
qed

theorem explicit_id_roundtrip_witness:
  "parseMarkdownSections ''## Title {#custom-id}'' =
     [\<lparr>sec_id = ''custom-id'', sec_title = ''Title'', sec_level = 2\<rparr>] \<and>
   parseMarkdown [''custom-id''] ''## Title {#custom-id}'' =
     [Heading2 0 ''custom-id'' ''Title'' True]"
  using explicit_id_roundtrip [of "''Title''" "''custom-id''" "[''custom-id'']"]
  by (simp add: isWhiteSpace_def isLineTerminator_def)

text \<open>
  The counterexample to C6 as stated. With a closing brace inside the id, the extractor
  cuts the id at the first closing brace and the renderer does not; with white space at
  the start of the title, the extractor drops it and the renderer keeps it; with white
  space at its end, both drop it; with an empty title, the renderer takes the suffix
  for the title; with a carriage return in the id or in the title, the renderer's
  pattern does not match and the whole rest of the line becomes the title.
\<close>

theorem explicit_id_counterexample:
  "parseMarkdownSections ''## Title {#a}b}'' =
     [\<lparr>sec_id = ''a'', sec_title = ''Title'', sec_level = 2\<rparr>] \<and>
   parseMarkdown [] ''## Title {#a}b}'' = [Heading2 0 ''a}b'' ''Title'' False] \<and>
   parseMarkdownSections ''##  Title {#id}'' =
     [\<lparr>sec_id = ''id'', sec_title = ''Title'', sec_level = 2\<rparr>] \<and>
   parseMarkdown [] ''##  Title {#id}'' = [Heading2 0 ''id'' '' Title'' False] \<and>
   parseMarkdownSections ''##  {#id}'' =
     [\<lparr>sec_id = ''id'', sec_title = [], sec_level = 2\<rparr>] \<and>
   parseMarkdown [] ''##  {#id}'' = [Heading2 0 ''-{#id}'' '' {#id}'' False] \<and>
   parseMarkdownSections ''## Title  {#id}'' =
     [\<lparr>sec_id = ''id'', sec_title = ''Title'', sec_level = 2\<rparr>] \<and>
   parseMarkdown [] ''## Title  {#id}'' = [Heading2 0 ''id'' ''Title'' False] \<and>
   parseMarkdownSections (''## a'' @ [CHR 0x0D] @ ''b {#id}'') =
     [\<lparr>sec_id = ''id'', sec_title = ''a'' @ [CHR 0x0D] @ ''b'', sec_level = 2\<rparr>] \<and>
   parseMarkdown [] (''## a'' @ [CHR 0x0D] @ ''b {#id}'') =
     [Heading2 0 ''a-b-{#id}'' (''a'' @ [CHR 0x0D] @ ''b {#id}'') False] \<and>
   parseMarkdownSections (''## Title {#a'' @ [CHR 0x0D] @ ''b}'') =
     [\<lparr>sec_id = ''a'' @ [CHR 0x0D] @ ''b'',
       sec_title = ''Title {#a'' @ [CHR 0x0D] @ ''b}'', sec_level = 2\<rparr>] \<and>
   parseMarkdown [] (''## Title {#a'' @ [CHR 0x0D] @ ''b}'') =
     [Heading2 0 ''title-{#a-b}'' (''Title {#a'' @ [CHR 0x0D] @ ''b}'') False]"
  by code_simp

section \<open>Snippets\<close>

lemma toLowerChar_dot: "toLowerChar c = CHR ''.'' \<longleftrightarrow> c = CHR ''.''"
proof
  assume h: "toLowerChar c = CHR ''.''"
  show "c = CHR ''.''"
  proof (rule ccontr)
    assume "c \<noteq> CHR ''.''"
    with h have up: "(65 \<le> (of_char c :: nat) \<and> (of_char c :: nat) \<le> 90) \<or>
        (192 \<le> (of_char c :: nat) \<and> (of_char c :: nat) \<le> 222 \<and> (of_char c :: nat) \<noteq> 215)"
      and low: "char_of ((of_char c :: nat) + 32) = CHR ''.''"
      by (auto simp: toLowerChar_def Let_def split: if_splits)
    from low have "(of_char (char_of ((of_char c :: nat) + 32) :: char) :: nat) = of_char CHR ''.''"
      by simp
    then have "((of_char c :: nat) + 32) mod 256 = 46" by (simp add: of_char_of)
    with up show False by auto
  qed
next
  assume "c = CHR ''.''"
  then show "toLowerChar c = CHR ''.''" by (simp add: toLowerChar_def)
qed

lemma list_all2_eq_map:
  "list_all2 (\<lambda>a b. f a = g b) xs ys \<longleftrightarrow> map f xs = map g ys"
proof (induction xs arbitrary: ys)
  case Nil
  then show ?case by auto
next
  case (Cons x xs)
  then show ?case by (cases ys) auto
qed

lemma matchesAt_literal:
  "matchesAt (map Lit q) s \<longleftrightarrow>
     length q \<le> length s \<and> toLowerCase (take (length q) s) = toLowerCase q"
proof -
  have "list_all2 atomMatches (map Lit q) xs \<longleftrightarrow> map toLowerChar q = map toLowerChar xs" for xs
    using list_all2_eq_map [of toLowerChar toLowerChar q xs] by (simp add: list_all2_map1)
  also have "map toLowerChar q = map toLowerChar xs \<longleftrightarrow> map toLowerChar xs = map toLowerChar q"
    for xs by (rule eq_commute)
  finally have "list_all2 atomMatches (map Lit q) xs \<longleftrightarrow>
      map toLowerChar xs = map toLowerChar q" for xs .
  then show ?thesis by (simp add: matchesAt_def toLowerCase_def)
qed

lemma compilePattern_literal:
  "\<forall>c \<in> set q. \<not> isSyntaxCharacter c \<Longrightarrow> compilePattern q = Some (map Lit q)"
proof -
  assume h: "\<forall>c \<in> set q. \<not> isSyntaxCharacter c"
  then have "\<forall>c \<in> set q. c \<noteq> CHR ''.''" by (auto simp: isSyntaxCharacter_def)
  with h show ?thesis by (auto simp: compilePattern_def)
qed

lemma literal_stops_at_dot:
  assumes lit: "\<forall>c \<in> set q. \<not> isSyntaxCharacter c"
  shows "matchesAt (map Lit q) (w @ CHR ''.'' # d) \<longleftrightarrow> matchesAt (map Lit q) w"
proof
  assume m: "matchesAt (map Lit q) (w @ CHR ''.'' # d)"
  have "length q \<le> length w"
  proof (rule ccontr)
    assume "\<not> length q \<le> length w"
    then have lt: "length w < length q" by simp
    from m have all2: "list_all2 atomMatches (map Lit q) (take (length q) (w @ CHR ''.'' # d))"
      by (simp add: matchesAt_def)
    have "atomMatches (map Lit q ! length w) (take (length q) (w @ CHR ''.'' # d) ! length w)"
      by (rule list_all2_nthD [OF all2]) (simp add: lt)
    moreover have "take (length q) (w @ CHR ''.'' # d) ! length w = CHR ''.''"
      using lt by (simp only: nth_take nth_append_length)
    ultimately have "toLowerChar (q ! length w) = CHR ''.''"
      using lt by (simp add: toLowerChar_dot)
    then have "q ! length w = CHR ''.''" by (simp add: toLowerChar_dot)
    moreover have "q ! length w \<in> set q" using lt by simp
    ultimately show False using lit by (auto simp: isSyntaxCharacter_def)
  qed
  with m show "matchesAt (map Lit q) w" by (simp add: matchesAt_literal)
next
  assume "matchesAt (map Lit q) w"
  then show "matchesAt (map Lit q) (w @ CHR ''.'' # d)" by (simp add: matchesAt_literal)
qed

lemma markAll_before_dots:
  assumes lit: "\<forall>c \<in> set q. \<not> isSyntaxCharacter c" and q: "q \<noteq> []"
  shows "markAll (map Lit q) (CHR ''.'' # s) = CHR ''.'' # markAll (map Lit q) s"
proof -
  have "\<not> matchesAt (map Lit q) (CHR ''.'' # s)"
    using literal_stops_at_dot [OF lit, of "[]" s] q by (simp add: matchesAt_def)
  then show ?thesis by (simp only: markAll.simps(2) simp_thms if_False)
qed

lemma markAll_match:
  "q \<noteq> [] \<Longrightarrow> matchesAt (map Lit q) w \<Longrightarrow>
   markAll (map Lit q) w =
     ''<mark>'' @ take (length q) w @ ''</mark>'' @ markAll (map Lit q) (drop (length q) w)"
  by (cases w) (simp_all add: matchesAt_def del: drop_Cons take_Cons)

lemma markAll_no_match:
  "\<not> matchesAt (map Lit q) (c # cs) \<Longrightarrow>
   markAll (map Lit q) (c # cs) = c # markAll (map Lit q) cs"
  by (simp only: markAll.simps(2) simp_thms if_False)

lemma markAll_after_dots:
  assumes lit: "\<forall>c \<in> set q. \<not> isSyntaxCharacter c" and q: "q \<noteq> []"
  shows "markAll (map Lit q) (w @ ''...'') = markAll (map Lit q) w @ ''...''"
proof (induction w rule: length_induct)
  case (1 w)
  note IH = 1 [rule_format]
  show ?case
  proof (cases w)
    case Nil
    have "markAll (map Lit q) ''...'' = ''...''"
      by (simp only: markAll_before_dots [OF lit q] markAll.simps(1))
    with Nil show ?thesis by simp
  next
    case (Cons c cs)
    have same: "matchesAt (map Lit q) (w @ ''...'') \<longleftrightarrow> matchesAt (map Lit q) w"
      using literal_stops_at_dot [OF lit, of w "''..''"] by simp
    show ?thesis
    proof (cases "matchesAt (map Lit q) w")
      case True
      then have len: "length q \<le> length w" by (simp add: matchesAt_def)
      have shorter: "length (drop (length q) w) < length w" using q Cons by simp
      have rest: "markAll (map Lit q) (drop (length q) w @ ''...'') =
          markAll (map Lit q) (drop (length q) w) @ ''...''"
        by (rule IH [OF shorter])
      have "markAll (map Lit q) (w @ ''...'') =
          ''<mark>'' @ take (length q) (w @ ''...'') @ ''</mark>'' @
          markAll (map Lit q) (drop (length q) (w @ ''...''))"
        using True same by (intro markAll_match [OF q]) simp
      also have "take (length q) (w @ ''...'') = take (length q) w" using len by simp
      also have "drop (length q) (w @ ''...'') = drop (length q) w @ ''...''" using len by simp
      finally show ?thesis
        by (simp only: rest markAll_match [OF q True] append_assoc)
    next
      case False
      have tail: "markAll (map Lit q) (cs @ ''...'') = markAll (map Lit q) cs @ ''...''"
        by (rule IH) (simp add: Cons)
      have "\<not> matchesAt (map Lit q) (c # (cs @ ''...''))" using False same Cons by simp
      then have "markAll (map Lit q) (c # (cs @ ''...'')) = c # markAll (map Lit q) (cs @ ''...'')"
        by (rule markAll_no_match)
      moreover have "markAll (map Lit q) (c # cs) = c # markAll (map Lit q) cs"
        using False Cons by (intro markAll_no_match) simp
      ultimately show ?thesis using tail Cons by simp
    qed
  qed
qed

lemma markAll_dots_prefix:
  assumes lit: "\<forall>c \<in> set q. \<not> isSyntaxCharacter c" and q: "q \<noteq> []"
  shows "markAll (map Lit q) (''...'' @ s) = ''...'' @ markAll (map Lit q) s"
  by (simp add: markAll_before_dots [OF lit q] del: markAll.simps)

lemma indexOf_first_occurrence:
  "indexOf s q = Some k \<Longrightarrow>
   k \<le> length s \<and> startsWith q (drop k s) \<and> (\<forall>j<k. \<not> startsWith q (drop j s))"
proof (induction s arbitrary: k)
  case Nil
  then show ?case by (simp add: startsWith_def split: if_splits)
next
  case (Cons c cs)
  show ?case
  proof (cases "startsWith q (c # cs)")
    case True
    with Cons.prems show ?thesis by simp
  next
    case False
    with Cons.prems obtain k' where k': "indexOf cs q = Some k'" "k = Suc k'" by auto
    from Cons.IH [OF k'(1)] have ih: "k' \<le> length cs" "startsWith q (drop k' cs)"
      "\<forall>j<k'. \<not> startsWith q (drop j cs)" by auto
    have "\<not> startsWith q (drop j (c # cs))" if "j < k" for j
      using that False ih(3) k'(2) by (cases j) auto
    with ih k'(2) show ?thesis by simp
  qed
qed

lemma searchLine_snippet:
  assumes lit: "\<forall>c \<in> set q. \<not> isSyntaxCharacter c" and q: "q \<noteq> []"
    and nohead: "headerMatch ln = None"
    and occ: "indexOf (toLowerCase ln) (toLowerCase q) = Some k"
  shows "searchLine host q index ln (cur, rs) =
     Inr (cur, rs @
       [\<lparr>res_sectionId = cur_id cur, res_sectionTitle = cur_title cur,
         res_snippet =
           (if 30 < k then ''...'' else []) @
           markAll (map Lit q) (slice (k - 30) (min (length ln) (k + length q + 30)) ln) @
           (if k + length q + 30 < length ln then ''...'' else []),
         res_line = index + 1\<rparr>])"
proof -
  let ?p = "map Lit q"
  let ?w = "slice (k - 30) (min (length ln) (k + length q + 30)) ln"
  have start: "nat (max 0 (int k - 30)) = k - 30"
    and cut_front: "(0 < max 0 (int k - 30)) = (30 < k)"
    and stop: "nat (min (int (length ln)) (int k + int (length q) + 30)) =
      min (length ln) (k + length q + 30)"
    and cut_back: "(min (int (length ln)) (int k + int (length q) + 30) < int (length ln)) =
      (k + length q + 30 < length ln)"
    by auto
  have mark: "highlighter host q = Inr (markAll ?p)"
    by (rule highlighter_interpreted [OF compilePattern_literal [OF lit]])
  have pre: "markAll ?p (''...'' @ s) = ''...'' @ markAll ?p s" for s
    by (rule markAll_dots_prefix [OF lit q])
  have post: "markAll ?p (s @ ''...'') = markAll ?p s @ ''...''" for s
    by (rule markAll_after_dots [OF lit q])
  have both: "markAll ?p (''...'' @ s @ ''...'') = ''...'' @ markAll ?p s @ ''...''" for s
    by (simp only: pre post)
  have snip: "makeSnippet host q ln =
      Inr ((if 30 < k then ''...'' else []) @ markAll ?p ?w @
           (if k + length q + 30 < length ln then ''...'' else []))"
    unfolding makeSnippet_def occ option.case Let_def mark sum.case start cut_front stop
      cut_back
    by (simp add: pre post del: markAll.simps append_Cons)
  have inc: "includesStr (toLowerCase ln) (toLowerCase q)"
    by (simp add: includesStr_def occ)
  show ?thesis
    by (simp add: searchLine_def nohead inc snip del: markAll.simps)
qed

lemma searchLines_append:
  "searchLines host q j (xs @ ys) st =
     (case searchLines host q j xs st of
        Inl e \<Rightarrow> Inl e
      | Inr st' \<Rightarrow> searchLines host q (j + length xs) ys st')"
  by (induction xs arbitrary: j st) (simp_all split: sum.splits)

lemma searchLine_result:
  "searchLine host q j ln (c, rs) = Inr (c', rs') \<Longrightarrow>
   rs' = rs \<or> (\<exists>r. rs' = rs @ [r] \<and> res_line r = j + 1)"
  by (auto simp: searchLine_def split: option.splits if_splits sum.splits)

lemma searchLines_range:
  "searchLines host q j ls (c, rs) = Inr (c', rs') \<Longrightarrow>
   \<exists>new. rs' = rs @ new \<and> (\<forall>r \<in> set new. j < res_line r \<and> res_line r \<le> j + length ls)"
proof (induction ls arbitrary: j c rs)
  case Nil
  then show ?case by simp
next
  case (Cons ln ls)
  from Cons.prems obtain c1 rs1 where
    step: "searchLine host q j ln (c, rs) = Inr (c1, rs1)"
    and rest: "searchLines host q (Suc j) ls (c1, rs1) = Inr (c', rs')"
    by (auto split: sum.splits)
  from Cons.IH [OF rest] obtain new where
    new: "rs' = rs1 @ new" "\<forall>r \<in> set new. Suc j < res_line r \<and> res_line r \<le> Suc j + length ls"
    by blast
  from searchLine_result [OF step] show ?case
  proof
    assume "rs1 = rs"
    with new show ?thesis by force
  next
    assume "\<exists>r. rs1 = rs @ [r] \<and> res_line r = j + 1"
    then obtain r where r: "rs1 = rs @ [r]" "res_line r = j + 1" by blast
    have "rs' = rs @ (r # new)" using new(1) r(1) by simp
    moreover have "\<forall>x \<in> set (r # new). j < res_line x \<and> res_line x \<le> j + length (ln # ls)"
      using new(2) r(2) by force
    ultimately show ?thesis by blast
  qed
qed

text \<open>
  C4. As stated, for every non-empty query and every line that includes it, the claim
  fails: see the counterexample below. What holds, whatever the host, for a query that
  is not white space only and holds no syntax character of regular expressions, and a
  line of the document
  that is not a level-2 heading line and whose lower-case form has the lower-case query
  first at index \<open>k\<close> (see \<open>indexOf_first_occurrence\<close>): the results, before the
  cut to 20, hold for this line exactly one entry, in document order. It carries the
  1-based number of the line and the id and title of the section cursor as the lines
  before left it. Its snippet is the window of the line from 30 characters before the
  occurrence (or the start of the line) to 30 characters after it (or the end of the
  line), with \<open>...\<close> in front exactly when the window starts after the start of the
  line and \<open>...\<close> behind exactly when it ends before the end of the line, and in the
  window the occurrences of the query, compared in lower case and taken from left to
  right without overlap, each between \<open><mark>\<close> and \<open></mark>\<close>
  (\<open>matchesAt_literal\<close>, \<open>markAll_match\<close>, \<open>markAll_no_match\<close>).
\<close>

theorem snippet_of_matching_line:
  fixes content q :: string and i k :: nat
  defines "lns \<equiv> split CHR 0x0A content"
  defines "ln \<equiv> split CHR 0x0A content ! i"
  assumes lit: "\<forall>c \<in> set q. \<not> isSyntaxCharacter c" and nonblank: "trim q \<noteq> []"
    and i: "i < length (split CHR 0x0A content)"
    and nohead: "headerMatch (split CHR 0x0A content ! i) = None"
    and occ: "indexOf (toLowerCase (split CHR 0x0A content ! i)) (toLowerCase q) = Some k"
  shows "\<exists>cur before after.
      searchLines host q 0 (take i lns)
          (\<lparr>cur_id = ''intro'', cur_title = ''Introduction''\<rparr>, []) =
        Inr (cur, before) \<and>
      searchResults host content q =
        Inr (take 20 (before @
          \<lparr>res_sectionId = cur_id cur, res_sectionTitle = cur_title cur,
           res_snippet =
             (if 30 < k then ''...'' else []) @
             markAll (map Lit q) (slice (k - 30) (min (length ln) (k + length q + 30)) ln) @
             (if k + length q + 30 < length ln then ''...'' else []),
           res_line = i + 1\<rparr> # after)) \<and>
      (\<forall>r \<in> set before. res_line r \<le> i) \<and> (\<forall>r \<in> set after. i + 1 < res_line r)"
proof -
  let ?init = "(\<lparr>cur_id = ''intro'', cur_title = ''Introduction''\<rparr>, [] :: SearchResult list)"
  have q: "q \<noteq> []" using nonblank by (auto simp: trim_def)
  have comp: "highlighter host q = Inr (markAll (map Lit q))"
    by (rule highlighter_interpreted [OF compilePattern_literal [OF lit]])
  have parts: "lns = take i lns @ ln # drop (Suc i) lns"
    using i by (simp add: lns_def ln_def id_take_nth_drop)
  obtain cur before where
    first: "searchLines host q 0 (take i lns) ?init = Inr (cur, before)"
    using searchLines_total [OF comp, of 0 "take i lns" ?init] by auto
  from searchLines_range [OF first] have before: "\<forall>r \<in> set before. res_line r \<le> i"
    by auto
  let ?r = "\<lparr>res_sectionId = cur_id cur, res_sectionTitle = cur_title cur,
           res_snippet =
             (if 30 < k then ''...'' else []) @
             markAll (map Lit q) (slice (k - 30) (min (length ln) (k + length q + 30)) ln) @
             (if k + length q + 30 < length ln then ''...'' else []),
           res_line = i + 1\<rparr>"
  have step: "searchLine host q i ln (cur, before) = Inr (cur, before @ [?r])"
    using searchLine_snippet [OF lit q, where ln = ln and k = k and index = i and cur = cur
        and rs = before and host = host] nohead occ
    by (simp add: ln_def)
  obtain c' rs' where
    last: "searchLines host q (Suc i) (drop (Suc i) lns) (cur, before @ [?r]) = Inr (c', rs')"
    using searchLines_total [OF comp, of "Suc i" "drop (Suc i) lns" "(cur, before @ [?r])"]
    by auto
  from searchLines_range [OF last] obtain after where
    after: "rs' = (before @ [?r]) @ after" "\<forall>r \<in> set after. i + 1 < res_line r"
    by auto
  have len: "0 + length (take i lns) = i" using i by (simp add: lns_def)
  have "searchLines host q 0 lns ?init =
      searchLines host q 0 (take i lns @ ln # drop (Suc i) lns) ?init"
    by (subst parts) (rule refl)
  also have "\<dots> =
      searchLines host q (0 + length (take i lns)) (ln # drop (Suc i) lns) (cur, before)"
    by (simp only: searchLines_append first sum.case)
  also have "\<dots> = searchLines host q i (ln # drop (Suc i) lns) (cur, before)"
    by (simp only: len)
  also have "\<dots> = searchLines host q (Suc i) (drop (Suc i) lns) (cur, before @ [?r])"
    by (simp only: searchLines.simps step sum.case)
  also have "\<dots> = Inr (c', (before @ [?r]) @ after)"
    by (simp only: last after(1))
  finally have run: "searchLines host q 0 (split CHR 0x0A content) ?init =
      Inr (c', before @ ?r # after)"
    by (simp only: lns_def append_assoc append_Cons append_Nil)
  have "searchResults host content q = Inr (take 20 (before @ ?r # after))"
    by (simp only: searchResults_def nonblank if_False run sum.case snd_conv)
  with first before after(2) show ?thesis by blast
qed


theorem snippet_of_matching_line_witness:
  "headerMatch (split CHR 0x0A longLineDocument ! 1) = None \<and>
   indexOf (toLowerCase (split CHR 0x0A longLineDocument ! 1)) (toLowerCase ''needle'') =
     Some 41 \<and>
   searchResults strictHost longLineDocument ''needle'' =
     Inr [\<lparr>res_sectionId = ''s1'', res_sectionTitle = ''Sec'',
            res_snippet =
              ''...12345678901234567890123456789 <mark>Needle</mark> 01234567890123456789012345678...'',
            res_line = 2\<rparr>]"
proof -
  have h: "\<forall>c \<in> set ''needle''. \<not> isSyntaxCharacter c" "trim ''needle'' \<noteq> []"
    "1 < length (split CHR 0x0A longLineDocument)"
    "headerMatch (split CHR 0x0A longLineDocument ! 1) = None"
    "indexOf (toLowerCase (split CHR 0x0A longLineDocument ! 1)) (toLowerCase ''needle'') =
       Some 41"
    by code_simp+
  note t = snippet_of_matching_line [OF h, where host = strictHost]
  have e: "searchResults strictHost longLineDocument ''needle'' =
     Inr [\<lparr>res_sectionId = ''s1'', res_sectionTitle = ''Sec'',
            res_snippet =
              ''...12345678901234567890123456789 <mark>Needle</mark> 01234567890123456789012345678...'',
            res_line = 2\<rparr>]"
    by code_simp
  from t h(4) h(5) e show ?thesis by blast
qed

text \<open>
  The counterexample to C4 as stated. A level-2 heading line that includes the query
  gets no result, and a query of white space only gets none on a line that includes it.
  On the line \<open>aaa\<close> the query \<open>aa\<close> occurs at the indices 0 and 1; only the first
  occurrence is marked. None of the three queries has a syntax character, so the host
  is not asked for a pattern.
\<close>

theorem snippet_claim_counterexample:
  "includesStr (toLowerCase ''## Hello'') (toLowerCase ''hello'') \<and>
   searchResults strictHost ''## Hello'' ''hello'' = Inr [] \<and>
   includesStr (toLowerCase ''a b'') (toLowerCase '' '') \<and>
   searchResults strictHost ''a b'' '' '' = Inr [] \<and>
   searchResults strictHost ''aaa'' ''aa'' =
     Inr [\<lparr>res_sectionId = ''intro'', res_sectionTitle = ''Introduction'',
            res_snippet = ''<mark>aa</mark>a'', res_line = 1\<rparr>] \<and>
   toLowerCase (take 2 (drop 1 ''aaa'')) = toLowerCase ''aa''"
  by code_simp

text \<open>
  The query text is the source of the highlight pattern as it stands. For the query
  \<open>.\<close> the pattern matches any character, and every character of the snippet is
  marked.
\<close>

lemma query_dot_marks_every_character:
  "searchResults host ''a.b'' ''.'' =
     Inr [\<lparr>res_sectionId = ''intro'', res_sectionTitle = ''Introduction'',
            res_snippet = ''<mark>a</mark><mark>.</mark><mark>b</mark>'', res_line = 1\<rparr>]"
  by code_simp

end
